theory Spec2Isabelle
  imports Complex_Main "HOL-Library.Multiset"
begin

section \<open>The file-tailing author-count consumer\<close>

text \<open>
  A shallow embedding of \<^verbatim>\<open>consumers/project_consumer_montoya.py\<close>: the module globals
  \<^verbatim>\<open>author_counts\<close> and \<^verbatim>\<open>total_messages\<close>, the functions \<^verbatim>\<open>update_chart\<close>,
  \<^verbatim>\<open>process_message\<close> and \<^verbatim>\<open>main\<close>, what the logger was given, and the text file that
  \<^verbatim>\<open>main\<close> reads with \<^verbatim>\<open>readline\<close>.

  The library functions the module calls (\<^verbatim>\<open>json.loads\<close>, the matplotlib calls) are
  parameters: what they return or raise is given by an environment.
\<close>

subsection \<open>Python values\<close>

text \<open>
  The exceptions that can reach the module's handlers. \<^verbatim>\<open>KeyboardInterrupt\<close> and
  \<^verbatim>\<open>SystemExit\<close> derive from \<^verbatim>\<open>BaseException\<close> only; every other class listed derives
  from \<^verbatim>\<open>Exception\<close> (\<^verbatim>\<open>JSONDecodeError\<close> through \<^verbatim>\<open>ValueError\<close>).
\<close>

datatype py_exn =
    JSONDecodeError
  | TypeError
  | ValueError
  | OSError
  | OtherException string
  | KeyboardInterrupt
  | SystemExit int

fun is_Exception :: "py_exn \<Rightarrow> bool" where
  "is_Exception KeyboardInterrupt = False"
| "is_Exception (SystemExit n) = False"
| "is_Exception e = True"

text \<open>
  A Python float: finite values by their exact rational value (\<^verbatim>\<open>-0.0\<close> and \<^verbatim>\<open>0.0\<close>
  are equal as keys), the two infinities and NaN.
\<close>

datatype py_float = Finite rat | PosInf | NegInf | NaN

text \<open>What \<^verbatim>\<open>json.loads\<close> returns: \<^verbatim>\<open>None\<close>, a bool, an int, a float, a str, a list or a
  dict with string keys (in insertion order, keys distinct).\<close>

datatype json =
    JNull
  | JBool bool
  | JInt int
  | JFloat py_float
  | JStr string
  | JArr "json list"
  | JObj "(string \<times> json) list"

datatype py_type = NoneType | PyBool | PyInt | PyFloat | PyStr | PyList | PyDict

fun type_of :: "json \<Rightarrow> py_type" where
  "type_of JNull = NoneType"
| "type_of (JBool b) = PyBool"
| "type_of (JInt n) = PyInt"
| "type_of (JFloat x) = PyFloat"
| "type_of (JStr s) = PyStr"
| "type_of (JArr xs) = PyList"
| "type_of (JObj kvs) = PyDict"

text \<open>\<^verbatim>\<open>d.get(key, default)\<close> on a dict with string keys.\<close>

definition dict_get :: "(string \<times> json) list \<Rightarrow> string \<Rightarrow> json \<Rightarrow> json" where
  "dict_get kvs key dflt = (case map_of kvs key of None \<Rightarrow> dflt | Some v \<Rightarrow> v)"

subsection \<open>The dictionary of counts\<close>

text \<open>
  Two objects are the same dictionary key when their hashes agree and they compare equal.
  \<^verbatim>\<open>True == 1 == 1.0\<close> and \<^verbatim>\<open>False == 0 == 0.0\<close>; \<^verbatim>\<open>None\<close> equals only itself; the
  NaN of \<^verbatim>\<open>json.loads\<close> is one object of the \<^verbatim>\<open>json\<close> module and is found by identity.
  Lists and dicts are unhashable: \<open>key_of\<close> is \<open>None\<close> and the dictionary raises
  \<^verbatim>\<open>TypeError\<close>.
\<close>

datatype py_key = KNone | KNum rat | KPosInf | KNegInf | KNaN | KStr string

fun key_of :: "json \<Rightarrow> py_key option" where
  "key_of JNull = Some KNone"
| "key_of (JBool b) = Some (KNum (if b then 1 else 0))"
| "key_of (JInt n) = Some (KNum (of_int n))"
| "key_of (JFloat (Finite q)) = Some (KNum q)"
| "key_of (JFloat PosInf) = Some KPosInf"
| "key_of (JFloat NegInf) = Some KNegInf"
| "key_of (JFloat NaN) = Some KNaN"
| "key_of (JStr s) = Some (KStr s)"
| "key_of (JArr xs) = None"
| "key_of (JObj kvs) = None"

text \<open>\<^verbatim>\<open>author_counts\<close>: the entries in insertion order, each with the key object that
  was inserted first.\<close>

type_synonym counts = "(json \<times> int) list"

fun dict_lookup :: "counts \<Rightarrow> py_key \<Rightarrow> int option" where
  "dict_lookup [] k = None"
| "dict_lookup ((a, c) # d) k = (if key_of a = Some k then Some c else dict_lookup d k)"

text \<open>Storing under a key: an entry with an equal key keeps its place and its key object,
  a new key goes to the end.\<close>

fun dict_store :: "counts \<Rightarrow> py_key \<Rightarrow> json \<Rightarrow> int \<Rightarrow> counts" where
  "dict_store [] k a v = [(a, v)]"
| "dict_store ((b, c) # d) k a v =
     (if key_of b = Some k then (b, v) # d else (b, c) # dict_store d k a v)"

text \<open>\<^verbatim>\<open>defaultdict(int).__getitem__\<close>: a missing key is inserted with \<^verbatim>\<open>int()\<close>, which
  is 0, and that value is returned.\<close>

definition getitem :: "counts \<Rightarrow> json \<Rightarrow> py_exn + (int \<times> counts)" where
  "getitem d a =
     (case key_of a of
        None \<Rightarrow> Inl TypeError
      | Some k \<Rightarrow>
          (case dict_lookup d k of
             Some c \<Rightarrow> Inr (c, d)
           | None \<Rightarrow> Inr (0, dict_store d k a 0)))"

definition setitem :: "counts \<Rightarrow> json \<Rightarrow> int \<Rightarrow> py_exn + counts" where
  "setitem d a v =
     (case key_of a of
        None \<Rightarrow> Inl TypeError
      | Some k \<Rightarrow> Inr (dict_store d k a v))"

text \<open>\<^verbatim>\<open>d[a] += n\<close>: \<^verbatim>\<open>__getitem__\<close>, the addition, \<^verbatim>\<open>__setitem__\<close>.\<close>

definition iadd_item :: "counts \<Rightarrow> json \<Rightarrow> int \<Rightarrow> py_exn + counts" where
  "iadd_item d a n =
     (case getitem d a of
        Inl e \<Rightarrow> Inl e
      | Inr (c, d') \<Rightarrow> setitem d' a (c + n))"

text \<open>\<^verbatim>\<open>max(xs)\<close> raises \<^verbatim>\<open>ValueError\<close> on an empty list.\<close>

fun py_max :: "int list \<Rightarrow> py_exn + int" where
  "py_max [] = Inl ValueError"
| "py_max (x # xs) = Inr (fold max xs x)"

subsection \<open>Module state and the logger\<close>

datatype level = INFO | ERROR

datatype log_text =
    ProjectRoot
  | DataFolder
  | DataFile
  | StartConsumer
  | DataFileMissing
  | ExpectedDictGot py_type
  | Totals int counts
  | InvalidJSON string
  | ErrorProcessing py_exn
  | Interrupted
  | UnexpectedError py_exn
  | ConsumerClosed

record state =
  author_counts :: counts
  total_messages :: int
  logged :: "(level \<times> log_text) list"

text \<open>The globals when the module has been loaded: no counts, and the three lines about
  the paths in the log.\<close>

definition import_log :: "(level \<times> log_text) list" where
  "import_log = [(INFO, ProjectRoot), (INFO, DataFolder), (INFO, DataFile)]"

definition initial_state :: state where
  "initial_state = \<lparr>author_counts = [], total_messages = 0, logged = import_log\<rparr>"

definition logger :: "level \<Rightarrow> log_text \<Rightarrow> state \<Rightarrow> state" where
  "logger lv t s = s\<lparr>logged := logged s @ [(lv, t)]\<rparr>"

subsection \<open>The environment\<close>

text \<open>
  What each matplotlib call of \<^verbatim>\<open>update_chart\<close> does: \<open>None\<close> when it returns, the
  exception when it raises. \<open>ax_labels\<close> stands for \<^verbatim>\<open>set_xlabel\<close>, \<^verbatim>\<open>set_ylabel\<close> and
  \<^verbatim>\<open>set_title\<close>; \<open>plt_draw\<close> for \<^verbatim>\<open>xticks\<close>, \<^verbatim>\<open>tight_layout\<close>, \<^verbatim>\<open>draw\<close> and
  \<^verbatim>\<open>pause\<close>; \<open>plt_show\<close> for the \<^verbatim>\<open>plt.ioff()\<close> and \<^verbatim>\<open>plt.show()\<close> of \<^verbatim>\<open>main\<close>.
\<close>

record pyplot =
  ax_clear :: "py_exn option"
  ax_bar :: "json list \<Rightarrow> int list \<Rightarrow> py_exn option"
  ax_labels :: "py_exn option"
  ax_set_ylim :: "int \<Rightarrow> int \<Rightarrow> py_exn option"
  plt_draw :: "py_exn option"
  plt_show :: "py_exn option"

record env =
  loads :: "string \<Rightarrow> py_exn + json"
  plt :: pyplot

text \<open>Two statements in sequence: the second runs when the first did not raise.\<close>

definition and_then :: "py_exn option \<Rightarrow> py_exn option \<Rightarrow> py_exn option" where
  "and_then a b = (case a of Some e \<Rightarrow> Some e | None \<Rightarrow> b)"

subsection \<open>\<^verbatim>\<open>update_chart\<close>\<close>

definition update_chart :: "pyplot \<Rightarrow> state \<Rightarrow> py_exn option" where
  "update_chart p s =
     and_then (ax_clear p)
       (if total_messages s = 0 then None
        else
          (let authors = map fst (author_counts s);
               counts = map snd (author_counts s)
           in and_then (ax_bar p authors counts)
               (and_then (ax_labels p)
                 (and_then
                    (case py_max counts of
                       Inl e \<Rightarrow> Some e
                     | Inr m \<Rightarrow> ax_set_ylim p 0 (m + 2))
                    (plt_draw p)))))"

subsection \<open>\<^verbatim>\<open>process_message\<close>\<close>

text \<open>
  The two \<^verbatim>\<open>except\<close> clauses of \<^verbatim>\<open>process_message\<close>, in their order. The result is the
  state and the exception that leaves the function, if one does.
\<close>

definition handlers :: "string \<Rightarrow> py_exn \<Rightarrow> state \<Rightarrow> state \<times> py_exn option" where
  "handlers message e s =
     (if e = JSONDecodeError then (logger ERROR (InvalidJSON message) s, None)
      else if is_Exception e then (logger ERROR (ErrorProcessing e) s, None)
      else (s, Some e))"

definition process_message :: "env \<Rightarrow> string \<Rightarrow> state \<Rightarrow> state \<times> py_exn option" where
  "process_message ev message s =
     (case loads ev message of
        Inl e \<Rightarrow> handlers message e s
      | Inr message_dict \<Rightarrow>
          (case message_dict of
             JObj kvs \<Rightarrow>
               (let author = dict_get kvs ''author'' (JStr ''Unknown'') in
                case iadd_item (author_counts s) author 1 of
                  Inl e \<Rightarrow> handlers message e s
                | Inr d \<Rightarrow>
                    (let s1 = s\<lparr>author_counts := d\<rparr>;
                         s2 = s1\<lparr>total_messages := total_messages s1 + 1\<rparr>;
                         s3 = logger INFO (Totals (total_messages s2) (author_counts s2)) s2
                     in case update_chart (plt ev) s3 of
                          Some e \<Rightarrow> handlers message e s3
                        | None \<Rightarrow> (s3, None)))
           | _ \<Rightarrow> (logger ERROR (ExpectedDictGot (type_of message_dict)) s, None)))"

subsection \<open>The text file and \<^verbatim>\<open>readline\<close>\<close>

text \<open>
  The open file: the characters written to it so far, as the text layer delivers them
  (decoded, line terminators translated to the newline character), and the position of
  the next read, counted in characters.
\<close>

record text_file =
  content :: string
  pos :: nat

text \<open>The producer appends to the file.\<close>

definition append_text :: "string \<Rightarrow> text_file \<Rightarrow> text_file" where
  "append_text w f = f\<lparr>content := content f @ w\<rparr>"

definition seek_end :: "text_file \<Rightarrow> text_file" where
  "seek_end f = f\<lparr>pos := length (content f)\<rparr>"

text \<open>The characters up to and including the first newline, all of them when there is
  none.\<close>

fun upto_newline :: "string \<Rightarrow> string" where
  "upto_newline [] = []"
| "upto_newline (c # cs) = (if c = CHR 0x0A then [c] else c # upto_newline cs)"

text \<open>\<^verbatim>\<open>file.readline()\<close>: the line from the position on, the empty string at the end of
  the file; the position moves past what was returned.\<close>

definition readline :: "text_file \<Rightarrow> string \<times> text_file" where
  "readline f =
     (let line = upto_newline (drop (pos f) (content f))
      in (line, f\<lparr>pos := pos f + length line\<rparr>))"

text \<open>\<^verbatim>\<open>str.isspace\<close> on one character, for the code points below 256: tab to carriage
  return, the separators 0x1C to 0x1F, the space, 0x85 and 0xA0.\<close>

definition isspace :: "char \<Rightarrow> bool" where
  "isspace c =
     (let n = (of_char c :: nat)
      in (9 \<le> n \<and> n \<le> 13) \<or> (28 \<le> n \<and> n \<le> 32) \<or> n = 133 \<or> n = 160)"

definition strip :: "string \<Rightarrow> string" where
  "strip s = rev (dropWhile isspace (rev (dropWhile isspace s)))"

subsection \<open>\<^verbatim>\<open>main\<close>\<close>

record loop_state =
  globals :: state
  infile :: text_file
  naps :: nat

text \<open>One pass through the body of \<^verbatim>\<open>while True\<close>; \<open>naps\<close> counts the calls of
  \<^verbatim>\<open>time.sleep(0.5)\<close>.\<close>

definition iteration :: "env \<Rightarrow> loop_state \<Rightarrow> loop_state \<times> py_exn option" where
  "iteration ev s =
     (let (line, f) = readline (infile s)
      in if strip line \<noteq> []
         then (case process_message ev line (globals s) of
                 (g, r) \<Rightarrow> (s\<lparr>globals := g, infile := f\<rparr>, r))
         else (s\<lparr>infile := f, naps := naps s + 1\<rparr>, None))"

text \<open>
  What the outside does around one pass: the producer appends text (possibly none) before
  the \<^verbatim>\<open>readline\<close>, or the pass raises at its \<^verbatim>\<open>readline\<close> or \<^verbatim>\<open>sleep\<close>
  (\<^verbatim>\<open>KeyboardInterrupt\<close> when the user interrupts, \<^verbatim>\<open>OSError\<close> when the file has
  become unreadable).
\<close>

datatype tick = Produce string | Raise py_exn

text \<open>The loop over a finite trace of ticks. It has no exit of its own: it ends with the
  exception that leaves it, and is still running (\<open>None\<close>) when the trace is used up.\<close>

fun loop :: "env \<Rightarrow> tick list \<Rightarrow> loop_state \<Rightarrow> loop_state \<times> py_exn option" where
  "loop ev [] s = (s, None)"
| "loop ev (Raise e # ts) s = (s, Some e)"
| "loop ev (Produce w # ts) s =
     (case iteration ev (s\<lparr>infile := append_text w (infile s)\<rparr>) of
        (s', Some e) \<Rightarrow> (s', Some e)
      | (s', None) \<Rightarrow> loop ev ts s')"

record world =
  data_file_exists :: bool
  data_file_text :: string
  open_raises :: "py_exn option"

text \<open>The \<^verbatim>\<open>except\<close> clauses of \<^verbatim>\<open>main\<close>, and its \<^verbatim>\<open>finally\<close> block: an exception
  raised there replaces the pending one.\<close>

definition main_handlers :: "py_exn \<Rightarrow> state \<Rightarrow> state \<times> py_exn option" where
  "main_handlers e s =
     (if e = KeyboardInterrupt then (logger INFO Interrupted s, None)
      else if is_Exception e then (logger ERROR (UnexpectedError e) s, None)
      else (s, Some e))"

definition main_finally :: "pyplot \<Rightarrow> state \<times> py_exn option \<Rightarrow> state \<times> py_exn option" where
  "main_finally p sr =
     (case plt_show p of
        Some e \<Rightarrow> (fst sr, Some e)
      | None \<Rightarrow> (logger INFO ConsumerClosed (fst sr), snd sr))"

text \<open>
  How the process ends. \<^verbatim>\<open>main\<close> returning gives exit code 0; \<^verbatim>\<open>SystemExit(n)\<close> gives
  \<open>n\<close>; an uncaught \<^verbatim>\<open>KeyboardInterrupt\<close> ends the process by the interrupt signal; any
  other uncaught exception gives 1.
\<close>

datatype status = StillRunning | ExitCode int | KilledByInterrupt

fun uncaught :: "py_exn \<Rightarrow> status" where
  "uncaught (SystemExit n) = ExitCode n"
| "uncaught KeyboardInterrupt = KilledByInterrupt"
| "uncaught e = ExitCode 1"

text \<open>The state when \<^verbatim>\<open>main\<close> starts, and the state at the entry of the loop: the
  file is open and the position is at its end.\<close>

definition startup :: "world \<Rightarrow> loop_state" where
  "startup w =
     \<lparr>globals = logger INFO StartConsumer initial_state,
      infile = \<lparr>content = data_file_text w, pos = 0\<rparr>,
      naps = 0\<rparr>"

definition loop_entry :: "world \<Rightarrow> loop_state" where
  "loop_entry w = (startup w)\<lparr>infile := seek_end (infile (startup w))\<rparr>"

definition main :: "env \<Rightarrow> world \<Rightarrow> tick list \<Rightarrow> loop_state \<times> status" where
  "main ev w ts =
     (if \<not> data_file_exists w
      then ((startup w)\<lparr>globals := logger ERROR DataFileMissing (globals (startup w))\<rparr>,
            uncaught (SystemExit 1))
      else
        (case (case open_raises w of
                 Some e \<Rightarrow> (startup w, Some e)
               | None \<Rightarrow> loop ev ts (loop_entry w)) of
           (s1, None) \<Rightarrow> (s1, StillRunning)
         | (s1, Some e) \<Rightarrow>
             (case main_finally (plt ev) (main_handlers e (globals s1)) of
                (g, None) \<Rightarrow> (s1\<lparr>globals := g\<rparr>, ExitCode 0)
              | (g, Some e') \<Rightarrow> (s1\<lparr>globals := g\<rparr>, uncaught e'))))"

subsection \<open>Environments\<close>

text \<open>An environment raises only errors when nothing it raises is a
  \<^verbatim>\<open>KeyboardInterrupt\<close> or a \<^verbatim>\<open>SystemExit\<close>.\<close>

definition only_errors :: "py_exn option \<Rightarrow> bool" where
  "only_errors r = (case r of None \<Rightarrow> True | Some e \<Rightarrow> is_Exception e)"

definition raises_only_errors :: "env \<Rightarrow> bool" where
  "raises_only_errors ev =
     ((\<forall>m. case loads ev m of Inl e \<Rightarrow> is_Exception e | Inr v \<Rightarrow> True) \<and>
      only_errors (ax_clear (plt ev)) \<and>
      (\<forall>ks cs. only_errors (ax_bar (plt ev) ks cs)) \<and>
      only_errors (ax_labels (plt ev)) \<and>
      (\<forall>lo hi. only_errors (ax_set_ylim (plt ev) lo hi)) \<and>
      only_errors (plt_draw (plt ev)))"

text \<open>A plotting backend in which every call returns.\<close>

definition quiet_plt :: pyplot where
  "quiet_plt =
     \<lparr>ax_clear = None, ax_bar = (\<lambda>ks cs. None), ax_labels = None,
      ax_set_ylim = (\<lambda>lo hi. None), plt_draw = None, plt_show = None\<rparr>"

text \<open>
  \<^verbatim>\<open>json.loads\<close> on the lines the examples below use: objects with and without an
  \<^verbatim>\<open>author\<close>, an author that is a number and one that is a list, an array, and text that
  is not JSON (every line that is not listed stands for such text).
\<close>

definition sample_loads :: "string \<Rightarrow> py_exn + json" where
  \<open>sample_loads m =
     (if m = ''{"author": "alice"}'' @ [CHR 0x0A]
        then Inr (JObj [(''author'', JStr ''alice'')])
      else if m = ''{"author": "bob"}'' @ [CHR 0x0A]
        then Inr (JObj [(''author'', JStr ''bob'')])
      else if m = ''{"x":1}'' @ [CHR 0x0A]
        then Inr (JObj [(''x'', JInt 1)])
      else if m = ''{"author": "Unknown"}'' @ [CHR 0x0A]
        then Inr (JObj [(''author'', JStr ''Unknown'')])
      else if m = ''{"author": 5}'' @ [CHR 0x0A]
        then Inr (JObj [(''author'', JInt 5)])
      else if m = ''{"author": [1]}'' @ [CHR 0x0A]
        then Inr (JObj [(''author'', JArr [JInt 1])])
      else if m = ''[1, 2]'' @ [CHR 0x0A]
        then Inr (JArr [JInt 1, JInt 2])
      else Inl JSONDecodeError)\<close>

definition sample_env :: env where
  "sample_env = \<lparr>loads = sample_loads, plt = quiet_plt\<rparr>"

subsection \<open>Notions used in the statements\<close>

text \<open>The count of a key, 0 for a key that is not in the dictionary; the text of the
  file from the position on; the sum of the values.\<close>

definition count_of :: "counts \<Rightarrow> py_key \<Rightarrow> int" where
  "count_of d k = (case dict_lookup d k of None \<Rightarrow> 0 | Some c \<Rightarrow> c)"

definition unread :: "text_file \<Rightarrow> string" where
  "unread f = drop (pos f) (content f)"

definition counts_sum :: "counts \<Rightarrow> int" where
  "counts_sum d = sum_list (map snd d)"

text \<open>\<^verbatim>\<open>process_message\<close> on a sequence of lines, one after the other, as the loop
  calls it; it stops at the first exception that leaves a call.\<close>

fun process_all :: "env \<Rightarrow> string list \<Rightarrow> state \<Rightarrow> state \<times> py_exn option" where
  "process_all ev [] s = (s, None)"
| "process_all ev (m # ms) s =
     (case process_message ev m s of
        (s', Some e) \<Rightarrow> (s', Some e)
      | (s', None) \<Rightarrow> process_all ev ms s')"

text \<open>The key under which the fold of \<^verbatim>\<open>process_message\<close> counts a line: the author
  of a decoded object, \<^verbatim>\<open>"Unknown"\<close> when it has none; no key when the line does not
  decode to an object or the author is unhashable.\<close>

definition counted_key :: "env \<Rightarrow> string \<Rightarrow> py_key option" where
  "counted_key ev m =
     (case loads ev m of
        Inl e \<Rightarrow> None
      | Inr v \<Rightarrow> (case v of JObj kvs \<Rightarrow> key_of (dict_get kvs ''author'' (JStr ''Unknown'')) | _ \<Rightarrow> None))"

text \<open>The total is the sum of the counts.\<close>

definition consistent :: "state \<Rightarrow> bool" where
  "consistent s = (total_messages s = counts_sum (author_counts s))"

text \<open>The aggregate as a dictionary comparison sees it (the count of every key, whatever
  the order of insertion) with the total, and what counting a key does to it.\<close>

definition tally :: "state \<Rightarrow> (py_key \<Rightarrow> int option) \<times> int" where
  "tally s = (dict_lookup (author_counts s), total_messages s)"

fun bump :: "py_key option \<Rightarrow> (py_key \<Rightarrow> int option) \<times> int \<Rightarrow> (py_key \<Rightarrow> int option) \<times> int" where
  "bump None t = t"
| "bump (Some k) (f, n) = (f(k \<mapsto> (case f k of None \<Rightarrow> 0 | Some c \<Rightarrow> c) + 1), n + 1)"

section \<open>Auxiliary facts\<close>

lemma sum_store_found:
  "dict_lookup d k = Some c \<Longrightarrow> counts_sum (dict_store d k a v) = counts_sum d - c + v"
  by (induction d k a v rule: dict_store.induct) (auto simp: counts_sum_def)

lemma sum_store_new:
  "dict_lookup d k = None \<Longrightarrow> counts_sum (dict_store d k a v) = counts_sum d + v"
  by (induction d k a v rule: dict_store.induct) (auto simp: counts_sum_def)

lemma lookup_store:
  "key_of a = Some k \<Longrightarrow>
   dict_lookup (dict_store d k a v) k' = (if k' = k then Some v else dict_lookup d k')"
  by (induction d k a v rule: dict_store.induct) auto

lemma iadd_item_unhashable: "key_of a = None \<Longrightarrow> iadd_item d a n = Inl TypeError"
  by (simp add: iadd_item_def getitem_def)

lemma iadd_item_hashable:
  assumes "key_of a = Some k"
  shows "\<exists>d'. iadd_item d a n = Inr d' \<and> counts_sum d' = counts_sum d + n \<and>
           (\<forall>k'. dict_lookup d' k' = (if k' = k then Some (count_of d k + n) else dict_lookup d k'))"
proof (cases "dict_lookup d k")
  case None
  then show ?thesis using assms
    by (simp add: iadd_item_def getitem_def setitem_def count_of_def lookup_store
        sum_store_new sum_store_found)
next
  case (Some c)
  then show ?thesis using assms
    by (simp add: iadd_item_def getitem_def setitem_def count_of_def lookup_store
        sum_store_found)
qed

lemma handlers_globals:
  "author_counts (fst (handlers m e s)) = author_counts s"
  "total_messages (fst (handlers m e s)) = total_messages s"
  by (simp_all add: handlers_def logger_def)

lemma process_message_skip:
  assumes "counted_key ev m = None"
  shows "author_counts (fst (process_message ev m s)) = author_counts s"
    and "total_messages (fst (process_message ev m s)) = total_messages s"
  using assms
  by (auto simp: process_message_def counted_key_def handlers_globals logger_def
      iadd_item_unhashable split: sum.splits json.splits)

lemma process_message_count:
  assumes "counted_key ev m = Some k"
  shows "total_messages (fst (process_message ev m s)) = total_messages s + 1"
    and "counts_sum (author_counts (fst (process_message ev m s))) = counts_sum (author_counts s) + 1"
    and "dict_lookup (author_counts (fst (process_message ev m s))) k' =
           (if k' = k then Some (count_of (author_counts s) k + 1)
            else dict_lookup (author_counts s) k')"
proof -
  from assms obtain kvs where l: "loads ev m = Inr (JObj kvs)"
    and k: "key_of (dict_get kvs ''author'' (JStr ''Unknown'')) = Some k"
    by (auto simp: counted_key_def split: sum.splits json.splits)
  from iadd_item_hashable[OF k, of "author_counts s" 1]
  obtain d' where d: "iadd_item (author_counts s) (dict_get kvs ''author'' (JStr ''Unknown'')) 1 = Inr d'"
    "counts_sum d' = counts_sum (author_counts s) + 1"
    "\<And>k'. dict_lookup d' k' = (if k' = k then Some (count_of (author_counts s) k + 1) else dict_lookup (author_counts s) k')"
    by blast
  have ac: "author_counts (fst (process_message ev m s)) = d'"
    using l d(1) by (simp add: process_message_def Let_def handlers_globals logger_def split: option.splits)
  have tm: "total_messages (fst (process_message ev m s)) = total_messages s + 1"
    using l d(1) by (simp add: process_message_def Let_def handlers_globals logger_def split: option.splits)
  show "total_messages (fst (process_message ev m s)) = total_messages s + 1" by (rule tm)
  show "counts_sum (author_counts (fst (process_message ev m s))) = counts_sum (author_counts s) + 1"
    using ac d(2) by simp
  show "dict_lookup (author_counts (fst (process_message ev m s))) k' =
           (if k' = k then Some (count_of (author_counts s) k + 1)
            else dict_lookup (author_counts s) k')"
    using ac d(3) by simp
qed

lemma process_message_consistent:
  "consistent s \<Longrightarrow> consistent (fst (process_message ev m s))"
  by (cases "counted_key ev m")
     (simp_all add: consistent_def process_message_skip process_message_count)

lemma process_all_consistent:
  "consistent s \<Longrightarrow> consistent (fst (process_all ev ms s))"
proof (induction ms arbitrary: s)
  case Nil
  then show ?case by simp
next
  case (Cons m ms)
  from process_message_consistent[OF Cons.prems, of ev m]
  show ?case using Cons.IH
    by (cases "process_message ev m s") (auto split: option.splits)
qed

lemma tally_process_message:
  "tally (fst (process_message ev m s)) = bump (counted_key ev m) (tally s)"
proof (cases "counted_key ev m")
  case None
  then show ?thesis by (simp add: tally_def process_message_skip)
next
  case (Some k)
  then show ?thesis
    by (auto simp: tally_def process_message_count count_of_def fun_eq_iff)
qed

lemma bump_commute: "bump a (bump b t) = bump b (bump a t)"
  by (cases a; cases b; cases t) (auto simp: fun_eq_iff)

lemma only_errors_and_then:
  "only_errors a \<Longrightarrow> only_errors b \<Longrightarrow> only_errors (and_then a b)"
  by (simp add: only_errors_def and_then_def split: option.splits)

lemma only_errors_update_chart:
  assumes "raises_only_errors ev"
  shows "only_errors (update_chart (plt ev) s)"
proof -
  have m: "only_errors (case py_max cs of Inl e \<Rightarrow> Some e | Inr m \<Rightarrow> ax_set_ylim (plt ev) 0 (m + 2))" for cs
    using assms by (cases cs) (simp_all add: raises_only_errors_def only_errors_def)
  have n: "only_errors None" by (simp add: only_errors_def)
  show ?thesis
    using assms m n unfolding update_chart_def Let_def raises_only_errors_def
    by (auto intro!: only_errors_and_then)
qed

lemma handlers_error:
  "is_Exception e \<Longrightarrow> snd (handlers m e s) = None"
  by (simp add: handlers_def)

lemma handlers_propagates:
  "snd (handlers m e s) = Some e' \<Longrightarrow> e' = e \<and> \<not> is_Exception e"
  by (auto simp: handlers_def split: if_splits)

lemma process_message_returns:
  assumes "raises_only_errors ev"
  shows "snd (process_message ev m s) = None"
proof -
  have l: "is_Exception e" if "loads ev m = Inl e" for e
    using assms that by (auto simp: raises_only_errors_def split: sum.splits dest: spec[of _ m])
  have u: "is_Exception e" if "update_chart (plt ev) s' = Some e" for e s'
    using only_errors_update_chart[OF assms, of s'] that by (simp add: only_errors_def)
  have i: "is_Exception e" if "iadd_item d a n = Inl e" for d a n e
    using that by (auto simp: iadd_item_def getitem_def setitem_def split: option.splits sum.splits prod.splits)
  show ?thesis
    unfolding process_message_def Let_def
    by (auto split: sum.splits json.splits option.splits simp: handlers_error l u i)
qed

lemma process_message_escape:
  assumes "snd (process_message ev m s) = Some e"
  shows "\<not> is_Exception e"
  using assms unfolding process_message_def Let_def
  by (auto split: sum.splits json.splits option.splits dest: handlers_propagates)

lemma process_all_returns:
  "raises_only_errors ev \<Longrightarrow> snd (process_all ev ms s) = None"
proof (induction ms arbitrary: s)
  case Nil
  then show ?case by simp
next
  case (Cons m ms)
  from process_message_returns[OF Cons.prems, of m s]
  show ?case using Cons
    by (cases "process_message ev m s") simp
qed

lemma tally_process_all:
  "raises_only_errors ev \<Longrightarrow>
   tally (fst (process_all ev ms s)) = fold (\<lambda>m. bump (counted_key ev m)) ms (tally s)"
proof (induction ms arbitrary: s)
  case Nil
  then show ?case by simp
next
  case (Cons m ms)
  have r: "snd (process_message ev m s) = None"
    by (rule process_message_returns[OF Cons.prems])
  obtain s' where s': "process_message ev m s = (s', None)"
    using r by (cases "process_message ev m s") simp
  have "tally s' = bump (counted_key ev m) (tally s)"
    using tally_process_message[of ev m s] s' by simp
  then show ?case using Cons s' by simp
qed

lemma tally_permuted:
  assumes "raises_only_errors ev" and "mset ms' = mset ms"
  shows "tally (fst (process_all ev ms' s)) = tally (fst (process_all ev ms s))"
proof -
  have "fold (\<lambda>m. bump (counted_key ev m)) ms' = fold (\<lambda>m. bump (counted_key ev m)) ms"
    by (rule fold_multiset_equiv) (auto simp: fun_eq_iff bump_commute assms(2))
  then show ?thesis using assms(1) by (simp add: tally_process_all)
qed

lemma iteration_consistent:
  assumes "consistent (globals s)"
  shows "consistent (globals (fst (iteration ev s)))"
proof -
  obtain line f where r: "readline (infile s) = (line, f)"
    by (cases "readline (infile s)")
  obtain g x where p: "process_message ev line (globals s) = (g, x)"
    by (cases "process_message ev line (globals s)")
  have "consistent g"
    using process_message_consistent[OF assms, of ev line] p by simp
  then show ?thesis using r p assms
    by (simp add: iteration_def)
qed

lemma loop_consistent:
  "consistent (globals s) \<Longrightarrow> consistent (globals (fst (loop ev ts s)))"
proof (induction ts arbitrary: s)
  case Nil
  then show ?case by simp
next
  case (Cons t ts)
  show ?case
  proof (cases t)
    case (Raise e)
    then show ?thesis using Cons.prems by simp
  next
    case (Produce w)
    let ?s = "s\<lparr>infile := append_text w (infile s)\<rparr>"
    have c: "consistent (globals (fst (iteration ev ?s)))"
      using iteration_consistent[of ?s ev] Cons.prems by simp
    obtain s' r where i: "iteration ev ?s = (s', r)"
      by (cases "iteration ev ?s")
    show ?thesis
    proof (cases r)
      case None
      then show ?thesis using Produce i c Cons.IH[of s'] by simp
    next
      case (Some e)
      then show ?thesis using Produce i c by simp
    qed
  qed
qed

lemma consistent_logger: "consistent (logger lv t s) = consistent s"
  by (simp add: consistent_def logger_def)

lemma consistent_initial: "consistent initial_state"
  by (simp add: consistent_def initial_state_def counts_sum_def)

lemma main_handlers_consistent: "consistent s \<Longrightarrow> consistent (fst (main_handlers e s))"
  by (simp add: main_handlers_def consistent_logger)

lemma main_finally_consistent: "consistent (fst sr) \<Longrightarrow> consistent (fst (main_finally p sr))"
  by (simp add: main_finally_def consistent_logger split: option.splits)

lemma main_consistent: "consistent (globals (fst (main ev w ts)))"
proof -
  have s: "consistent (globals (startup w))"
    by (simp add: startup_def consistent_logger consistent_initial)
  have e: "consistent (globals (loop_entry w))"
    using s by (simp add: loop_entry_def)
  have l: "consistent (globals (fst (loop ev ts (loop_entry w))))"
    by (rule loop_consistent[OF e])
  have f: "consistent (fst (main_finally (plt ev) (main_handlers e' (globals s1))))"
    if "consistent (globals s1)" for s1 :: loop_state and e'
    using that by (intro main_finally_consistent main_handlers_consistent)
  show ?thesis
  proof (cases "data_file_exists w")
    case False
    then show ?thesis using s by (simp add: main_def consistent_logger)
  next
    case True
    show ?thesis
    proof (cases "open_raises w")
      case None
      obtain s1 r where lr: "loop ev ts (loop_entry w) = (s1, r)" by (cases "loop ev ts (loop_entry w)")
      with l have c1: "consistent (globals s1)" by simp
      show ?thesis
      proof (cases r)
        case None
        then show ?thesis using True \<open>open_raises w = None\<close> lr c1 by (simp add: main_def)
      next
        case (Some e')
        then show ?thesis using True \<open>open_raises w = None\<close> lr f[OF c1, of e']
          by (auto simp: main_def split: prod.splits option.splits)
      qed
    next
      case (Some e')
      then show ?thesis using True f[OF s, of e']
        by (auto simp: main_def split: prod.splits option.splits)
    qed
  qed
qed

lemmas run_defs =
  process_message_def handlers_def logger_def update_chart_def and_then_def Let_def
  iadd_item_def getitem_def setitem_def dict_get_def initial_state_def
  sample_env_def sample_loads_def quiet_plt_def count_of_def

lemma strip_empty_iff: "(strip s = []) = (\<forall>c\<in>set s. isspace c)"
proof -
  have "(strip s = []) = (\<forall>c\<in>set (dropWhile isspace s). isspace c)"
    by (simp add: strip_def)
  also have "\<dots> = (dropWhile isspace s = [])"
    by (metis hd_dropWhile hd_in_set empty_iff list.set(1))
  also have "\<dots> = (\<forall>c\<in>set s. isspace c)"
    by (rule dropWhile_eq_Nil_conv)
  finally show ?thesis .
qed

lemma process_message_invalid:
  "loads ev m = Inl JSONDecodeError \<Longrightarrow>
   process_message ev m g = (g\<lparr>logged := logged g @ [(ERROR, InvalidJSON m)]\<rparr>, None)"
  by (simp add: process_message_def handlers_def logger_def)

lemma readline_pos: "readline f = (line, f') \<Longrightarrow> pos f' = pos f + length line"
  by (auto simp: readline_def Let_def)

lemma sample_env_raises_only_errors: "raises_only_errors sample_env"
  by (simp add: raises_only_errors_def only_errors_def sample_env_def sample_loads_def
      quiet_plt_def)

lemma key_of_Unknown: "(key_of a = Some (KStr ''Unknown'')) = (a = JStr ''Unknown'')"
  by (cases a rule: key_of.cases) simp_all

lemma process_message_unhashable:
  assumes "loads ev m = Inr (JObj kvs)" and "map_of kvs ''author'' = Some a"
    and "key_of a = None"
  shows "process_message ev m s =
           (s\<lparr>logged := logged s @ [(ERROR, ErrorProcessing TypeError)]\<rparr>, None)"
  using assms
  by (simp add: process_message_def dict_get_def iadd_item_unhashable handlers_def logger_def)

lemma upto_newline_prefix: "take (length (upto_newline xs)) xs = upto_newline xs"
  by (induction xs) simp_all

lemma upto_newline_all: "CHR 0x0A \<notin> set xs \<Longrightarrow> upto_newline xs = xs"
  by (induction xs) auto

lemma upto_newline_length: "length (upto_newline xs) \<le> length xs"
  by (induction xs) simp_all

lemma upto_newline_line:
  "CHR 0x0A \<in> set xs \<Longrightarrow> \<exists>l. upto_newline xs = l @ [CHR 0x0A] \<and> CHR 0x0A \<notin> set l"
proof (induction xs)
  case Nil
  then show ?case by simp
next
  case (Cons c cs)
  show ?case
  proof (cases "c = CHR 0x0A")
    case True
    then show ?thesis by simp
  next
    case False
    with Cons obtain l where "upto_newline cs = l @ [CHR 0x0A]" "CHR 0x0A \<notin> set l"
      by auto
    then have "upto_newline (c # cs) = (c # l) @ [CHR 0x0A] \<and> CHR 0x0A \<notin> set (c # l)"
      using False by simp
    then show ?thesis by blast
  qed
qed

lemma readline_unread:
  assumes "readline f = (line, f')"
  shows "line = upto_newline (unread f)" and "unread f = line @ unread f'"
proof -
  show l: "line = upto_newline (unread f)"
    using assms by (auto simp: readline_def Let_def unread_def)
  have "unread f' = drop (length line) (unread f)"
    using assms by (auto simp: readline_def Let_def unread_def add.commute)
  moreover have "take (length line) (unread f) = line"
    using l upto_newline_prefix[of "unread f"] by simp
  ultimately show "unread f = line @ unread f'"
    using append_take_drop_id[of "length line" "unread f"] by simp
qed

lemma position_in_file:
  "pos (seek_end f) \<le> length (content (seek_end f))"
  "pos f \<le> length (content f) \<Longrightarrow> pos (append_text w f) \<le> length (content (append_text w f))"
  "pos f \<le> length (content f) \<Longrightarrow> pos (snd (readline f)) \<le> length (content (snd (readline f)))"
proof -
  show "pos (seek_end f) \<le> length (content (seek_end f))"
    by (simp add: seek_end_def)
  show "pos (append_text w f) \<le> length (content (append_text w f))" if "pos f \<le> length (content f)"
    using that by (simp add: append_text_def)
  show "pos (snd (readline f)) \<le> length (content (snd (readline f)))" if "pos f \<le> length (content f)"
  proof -
    have "length (upto_newline (drop (pos f) (content f))) \<le> length (drop (pos f) (content f))"
      by (rule upto_newline_length)
    then show ?thesis using that by (simp add: readline_def Let_def)
  qed
qed

lemma main_missing_file:
  "\<not> data_file_exists w \<Longrightarrow> snd (main ev w ts) = ExitCode 1"
  by (simp add: main_def)

lemma main_loop_raised:
  assumes "data_file_exists w" and "open_raises w = None"
    and "loop ev ts (loop_entry w) = (s1, Some e)"
    and "e = KeyboardInterrupt \<or> is_Exception e" and "plt_show (plt ev) = None"
  shows "main ev w ts =
           (s1\<lparr>globals :=
                 logger INFO ConsumerClosed
                   (logger (if e = KeyboardInterrupt then INFO else ERROR)
                      (if e = KeyboardInterrupt then Interrupted else UnexpectedError e)
                      (globals s1))\<rparr>,
            ExitCode 0)"
  using assms by (auto simp: main_def main_handlers_def main_finally_def)

section \<open>The claims\<close>

text \<open>
  Claim C1. From the empty aggregate, after any sequence of processed lines, with any
  decoder and any plotting backend, \<^verbatim>\<open>total_messages\<close> is the sum of the values of
  \<^verbatim>\<open>author_counts\<close>; the same holds for the state in which \<^verbatim>\<open>main\<close> ends or is still
  running, for every world and every trace of ticks.
\<close>

theorem total_equals_sum_of_counts:
  "total_messages (fst (process_all ev ms initial_state)) =
     sum_list (map snd (author_counts (fst (process_all ev ms initial_state)))) \<and>
   total_messages (globals (fst (main ev w ts))) =
     sum_list (map snd (author_counts (globals (fst (main ev w ts)))))"
  using process_all_consistent[OF consistent_initial, of ev ms] main_consistent[of ev w ts]
  by (simp add: consistent_def counts_sum_def)

text \<open>
  Claim C2, as the code has it. \<^verbatim>\<open>readline\<close> returns the unread text up to and
  including the first line terminator. When the unread text has no terminator it returns
  all of it: a trailing line that is not yet terminated is returned and consumed, the
  position is then at the end of the file, and what the producer writes next is read as
  a piece of its own. No character is returned twice or skipped: the unread text is the
  returned line followed by what remains unread, and the position moves by the length of
  the line.
\<close>

theorem readline_returns_to_terminator_or_end:
  assumes "readline f = (line, f')" and "pos f \<le> length (content f)"
  shows "content f' = content f \<and> pos f' = pos f + length line \<and>
         unread f = line @ unread f' \<and>
         (if CHR 0x0A \<in> set (unread f)
          then \<exists>l. line = l @ [CHR 0x0A] \<and> CHR 0x0A \<notin> set l
          else line = unread f \<and> pos f' = length (content f) \<and>
               unread (append_text w f') = w)"
proof -
  have c: "content f' = content f" and p: "pos f' = pos f + length line"
    using assms(1) by (auto simp: readline_def Let_def)
  note u = readline_unread[OF assms(1)]
  have t: "\<exists>l. line = l @ [CHR 0x0A] \<and> CHR 0x0A \<notin> set l" if "CHR 0x0A \<in> set (unread f)"
    using upto_newline_line[OF that] u(1) by simp
  have e: "line = unread f \<and> pos f' = length (content f) \<and> unread (append_text w f') = w"
    if n: "CHR 0x0A \<notin> set (unread f)"
  proof -
    have l: "line = unread f" using u(1) upto_newline_all[OF n] by simp
    then have pe: "pos f' = length (content f)"
      using p assms(2) by (simp add: unread_def)
    then show ?thesis using l c by (simp add: unread_def append_text_def)
  qed
  show ?thesis using c p u(2) t e by simp
qed

theorem readline_returns_to_terminator_or_end_witness:
  \<open>readline \<lparr>content = ''{"author": "al'', pos = 0\<rparr> =
     (''{"author": "al'', \<lparr>content = ''{"author": "al'', pos = 14\<rparr>) \<and>
   pos \<lparr>content = ''{"author": "al'', pos = 0\<rparr> \<le> length (content \<lparr>content = ''{"author": "al'', pos = 0\<rparr>) \<and>
   CHR 0x0A \<notin> set (unread \<lparr>content = ''{"author": "al'', pos = 0\<rparr>) \<and>
   unread \<lparr>content = ''{"author": "al'', pos = 14\<rparr> = [] \<and>
   unread (append_text (''ice"}'' @ [CHR 0x0A]) \<lparr>content = ''{"author": "al'', pos = 14\<rparr>) =
     ''ice"}'' @ [CHR 0x0A]\<close>
proof -
  let ?f = \<open>\<lparr>content = ''{"author": "al'', pos = 0\<rparr>\<close>
  let ?f' = \<open>\<lparr>content = ''{"author": "al'', pos = 14\<rparr>\<close>
  have r: \<open>readline ?f = (''{"author": "al'', ?f')\<close>
    by (simp add: readline_def Let_def)
  have p: "pos ?f \<le> length (content ?f)"
    by simp
  show ?thesis
    using r p readline_returns_to_terminator_or_end[OF r p, of \<open>''ice"}'' @ [CHR 0x0A]\<close>]
    by (simp add: unread_def)
qed

text \<open>
  The claim as the specification states it fails when the producer writes
  \<^verbatim>\<open>{"author": "al\<close> and, after the consumer has polled, \<^verbatim>\<open>ice"}\<close> with the
  terminator: the first poll returns the unterminated text and moves the position past
  it, and the second returns only the rest. The loop hands both pieces to
  \<^verbatim>\<open>process_message\<close>, which logs two lines of invalid JSON and counts nothing.
\<close>

theorem partial_line_is_consumed:
  \<open>readline (append_text ''{"author": "al'' \<lparr>content = [], pos = 0\<rparr>) =
     (''{"author": "al'', \<lparr>content = ''{"author": "al'', pos = 14\<rparr>) \<and>
   CHR 0x0A \<notin> set ''{"author": "al'' \<and>
   readline (append_text (''ice"}'' @ [CHR 0x0A]) \<lparr>content = ''{"author": "al'', pos = 14\<rparr>) =
     (''ice"}'' @ [CHR 0x0A], \<lparr>content = ''{"author": "alice"}'' @ [CHR 0x0A], pos = 20\<rparr>) \<and>
   globals (fst (loop sample_env [Produce ''{"author": "al'', Produce (''ice"}'' @ [CHR 0x0A])]
       (loop_entry \<lparr>data_file_exists = True, data_file_text = [], open_raises = None\<rparr>))) =
     \<lparr>author_counts = [], total_messages = 0,
      logged = import_log @ [(INFO, StartConsumer), (ERROR, InvalidJSON ''{"author": "al''),
                (ERROR, InvalidJSON (''ice"}'' @ [CHR 0x0A]))]\<rparr>\<close>
  by (simp add: readline_def append_text_def loop_entry_def startup_def seek_end_def
      iteration_def strip_empty_iff isspace_def run_defs)

text \<open>
  Claim C3, as the code has it. For a decoded object whose \<^verbatim>\<open>author\<close> is present: when
  the value is hashable (a string, a number, a boolean or null) the record is counted
  under that value, whatever its type: the total and the count of that key grow by 1
  and no other key changes; when the value is a list or an object,
  \<^verbatim>\<open>author_counts[author]\<close> raises \<^verbatim>\<open>TypeError\<close>, which is caught and logged at error
  level, and the counters are unchanged. With the field present, the count of
  \<^verbatim>\<open>"Unknown"\<close> changes exactly when the value is the string \<^verbatim>\<open>"Unknown"\<close>.
\<close>

theorem present_author_is_counted_as_given:
  assumes "loads ev m = Inr (JObj kvs)" and "map_of kvs ''author'' = Some a"
  shows "(case key_of a of
            None \<Rightarrow>
              process_message ev m s =
                (s\<lparr>logged := logged s @ [(ERROR, ErrorProcessing TypeError)]\<rparr>, None)
          | Some k \<Rightarrow>
              total_messages (fst (process_message ev m s)) = total_messages s + 1 \<and>
              count_of (author_counts (fst (process_message ev m s))) k =
                count_of (author_counts s) k + 1 \<and>
              (\<forall>k'. k' \<noteq> k \<longrightarrow>
                 dict_lookup (author_counts (fst (process_message ev m s))) k' =
                   dict_lookup (author_counts s) k')) \<and>
         (count_of (author_counts (fst (process_message ev m s))) (KStr ''Unknown'') \<noteq>
            count_of (author_counts s) (KStr ''Unknown'')) = (a = JStr ''Unknown'')"
proof (cases "key_of a")
  case None
  have "a \<noteq> JStr ''Unknown''" using None by auto
  then show ?thesis
    using None process_message_unhashable[OF assms None, of s] by simp
next
  case (Some k)
  have c: "counted_key ev m = Some k"
    using assms Some by (simp add: counted_key_def dict_get_def)
  have u: "(k = KStr ''Unknown'') = (a = JStr ''Unknown'')"
    using Some key_of_Unknown[of a] by auto
  show ?thesis
    using Some u process_message_count[OF c, of s]
    by (auto simp: count_of_def)
qed

theorem present_author_is_counted_as_given_witness:
  \<open>loads sample_env (''{"author": 5}'' @ [CHR 0x0A]) = Inr (JObj [(''author'', JInt 5)]) \<and>
   map_of [(''author'', JInt 5)] ''author'' = Some (JInt 5) \<and>
   key_of (JInt 5) = Some (KNum 5) \<and>
   total_messages (fst (process_message sample_env (''{"author": 5}'' @ [CHR 0x0A]) initial_state)) = 1 \<and>
   count_of (author_counts (fst (process_message sample_env (''{"author": 5}'' @ [CHR 0x0A]) initial_state)))
     (KNum 5) = 1 \<and>
   count_of (author_counts (fst (process_message sample_env (''{"author": 5}'' @ [CHR 0x0A]) initial_state)))
     (KStr ''Unknown'') = 0 \<and>
   loads sample_env (''{"author": [1]}'' @ [CHR 0x0A]) = Inr (JObj [(''author'', JArr [JInt 1])]) \<and>
   map_of [(''author'', JArr [JInt 1])] ''author'' = Some (JArr [JInt 1]) \<and>
   key_of (JArr [JInt 1]) = None \<and>
   process_message sample_env (''{"author": [1]}'' @ [CHR 0x0A]) initial_state =
     (\<lparr>author_counts = [], total_messages = 0,
       logged = import_log @ [(ERROR, ErrorProcessing TypeError)]\<rparr>, None)\<close>
proof -
  have l5: \<open>loads sample_env (''{"author": 5}'' @ [CHR 0x0A]) = Inr (JObj [(''author'', JInt 5)])\<close>
    by (simp add: sample_env_def sample_loads_def)
  have a5: "map_of [(''author'', JInt 5)] ''author'' = Some (JInt 5)"
    by simp
  have ll: \<open>loads sample_env (''{"author": [1]}'' @ [CHR 0x0A]) = Inr (JObj [(''author'', JArr [JInt 1])])\<close>
    by (simp add: sample_env_def sample_loads_def)
  have al: "map_of [(''author'', JArr [JInt 1])] ''author'' = Some (JArr [JInt 1])"
    by simp
  show ?thesis
    using l5 a5 ll al
      present_author_is_counted_as_given[OF l5 a5, of initial_state]
      present_author_is_counted_as_given[OF ll al, of initial_state]
    by (simp add: initial_state_def count_of_def)
qed

text \<open>
  The claim as the specification states it fails on the line \<^verbatim>\<open>{"author": 5}\<close>: the
  author is present and is not a string, and the record is counted under the key 5 and
  logged at info level, not rejected.
\<close>

theorem numeric_author_is_counted:
  \<open>loads sample_env (''{"author": 5}'' @ [CHR 0x0A]) = Inr (JObj [(''author'', JInt 5)]) \<and>
   process_message sample_env (''{"author": 5}'' @ [CHR 0x0A]) initial_state =
     (\<lparr>author_counts = [(JInt 5, 1)], total_messages = 1,
       logged = import_log @ [(INFO, Totals 1 [(JInt 5, 1)])]\<rparr>, None) \<and>
   map_of [(''author'', JInt 5)] ''author'' = Some (JInt 5) \<and>
   type_of (JInt 5) \<noteq> PyStr \<and>
   total_messages (fst (process_message sample_env (''{"author": 5}'' @ [CHR 0x0A]) initial_state))
     \<noteq> total_messages initial_state \<and>
   author_counts (fst (process_message sample_env (''{"author": 5}'' @ [CHR 0x0A]) initial_state))
     \<noteq> author_counts initial_state\<close>
  by (simp add: run_defs)

text \<open>
  Claim C4. A line that is not valid JSON (\<^verbatim>\<open>json.loads\<close> raises \<^verbatim>\<open>JSONDecodeError\<close>)
  leaves \<^verbatim>\<open>total_messages\<close> and \<^verbatim>\<open>author_counts\<close> as they were; the failure is logged
  at error level and \<^verbatim>\<open>process_message\<close> returns. In the loop, the pass that read the
  line goes on to the next pass with the position moved past the line, which is not
  empty, so the line is not read again.
\<close>

theorem invalid_json_line_is_skipped:
  "(loads ev m = Inl JSONDecodeError \<longrightarrow>
      process_message ev m g = (g\<lparr>logged := logged g @ [(ERROR, InvalidJSON m)]\<rparr>, None)) \<and>
   (readline (append_text w (infile s)) = (line, f) \<and> strip line \<noteq> [] \<and>
    loads ev line = Inl JSONDecodeError \<longrightarrow>
      loop ev (Produce w # ts) s =
        loop ev ts
          (s\<lparr>globals := (globals s)\<lparr>logged := logged (globals s) @ [(ERROR, InvalidJSON line)]\<rparr>,
             infile := f\<rparr>) \<and>
      pos f = pos (infile s) + length line \<and> 0 < length line)"
proof (intro conjI impI)
  assume "loads ev m = Inl JSONDecodeError"
  then show "process_message ev m g = (g\<lparr>logged := logged g @ [(ERROR, InvalidJSON m)]\<rparr>, None)"
    by (rule process_message_invalid)
next
  assume a: "readline (append_text w (infile s)) = (line, f) \<and> strip line \<noteq> [] \<and>
    loads ev line = Inl JSONDecodeError"
  then have p: "process_message ev line (globals s) =
      ((globals s)\<lparr>logged := logged (globals s) @ [(ERROR, InvalidJSON line)]\<rparr>, None)"
    by (simp add: process_message_invalid)
  show "loop ev (Produce w # ts) s =
        loop ev ts
          (s\<lparr>globals := (globals s)\<lparr>logged := logged (globals s) @ [(ERROR, InvalidJSON line)]\<rparr>,
             infile := f\<rparr>)"
    using a p by (simp add: iteration_def)
  show "pos f = pos (infile s) + length line"
    using a readline_pos[of "append_text w (infile s)" line f] by (simp add: append_text_def)
  show "0 < length line"
    using a by (cases line) (simp_all add: strip_def)
qed

theorem invalid_json_line_is_skipped_witness:
  "loads sample_env (''not json'' @ [CHR 0x0A]) = Inl JSONDecodeError \<and>
   readline (append_text (''not json'' @ [CHR 0x0A]) (infile (loop_entry \<lparr>data_file_exists = True, data_file_text = [], open_raises = None\<rparr>)))
     = (''not json'' @ [CHR 0x0A], \<lparr>content = ''not json'' @ [CHR 0x0A], pos = 9\<rparr>) \<and>
   strip (''not json'' @ [CHR 0x0A]) \<noteq> [] \<and>
   process_message sample_env (''not json'' @ [CHR 0x0A]) initial_state =
     (\<lparr>author_counts = [], total_messages = 0,
       logged = import_log @ [(ERROR, InvalidJSON (''not json'' @ [CHR 0x0A]))]\<rparr>, None) \<and>
   loop sample_env [Produce (''not json'' @ [CHR 0x0A])]
       (loop_entry \<lparr>data_file_exists = True, data_file_text = [], open_raises = None\<rparr>) =
     (\<lparr>globals = \<lparr>author_counts = [], total_messages = 0,
         logged = import_log @ [(INFO, StartConsumer), (ERROR, InvalidJSON (''not json'' @ [CHR 0x0A]))]\<rparr>,
       infile = \<lparr>content = ''not json'' @ [CHR 0x0A], pos = 9\<rparr>, naps = 0\<rparr>, None)"
proof -
  let ?w = "\<lparr>data_file_exists = True, data_file_text = [], open_raises = None\<rparr>"
  let ?l = "''not json'' @ [CHR 0x0A]"
  have l: "loads sample_env ?l = Inl JSONDecodeError"
    by (simp add: sample_env_def sample_loads_def)
  have r: "readline (append_text ?l (infile (loop_entry ?w))) = (?l, \<lparr>content = ?l, pos = 9\<rparr>)"
    by (simp add: readline_def Let_def append_text_def loop_entry_def startup_def seek_end_def)
  have n: "strip ?l \<noteq> []"
    by (simp add: strip_empty_iff isspace_def)
  show ?thesis
    using l r n
      invalid_json_line_is_skipped[of sample_env ?l initial_state ?l "loop_entry ?w" ?l
        "\<lparr>content = ?l, pos = 9\<rparr>" "[]"]
    by (simp add: initial_state_def loop_entry_def startup_def seek_end_def logger_def)
qed

text \<open>
  Claim C5, as the code has it. The exit code is 1 when the data file does not exist at
  startup. It is 0 when the loop is left by a \<^verbatim>\<open>KeyboardInterrupt\<close> and the cleanup
  returns. It is 0 as well when the loop is left by an error, as when the file has
  become unreadable and \<^verbatim>\<open>readline\<close> raises \<^verbatim>\<open>OSError\<close>: the error is logged as
  unexpected, the cleanup runs and \<^verbatim>\<open>main\<close> returns.
\<close>

theorem exit_codes:
  "(\<not> data_file_exists w \<longrightarrow> snd (main ev w ts) = ExitCode 1) \<and>
   (data_file_exists w \<and> open_raises w = None \<and> plt_show (plt ev) = None \<and>
    snd (loop ev ts (loop_entry w)) = Some KeyboardInterrupt \<longrightarrow>
      snd (main ev w ts) = ExitCode 0 \<and>
      (INFO, Interrupted) \<in> set (logged (globals (fst (main ev w ts))))) \<and>
   (data_file_exists w \<and> open_raises w = None \<and> plt_show (plt ev) = None \<and>
    snd (loop ev ts (loop_entry w)) = Some e \<and> is_Exception e \<longrightarrow>
      snd (main ev w ts) = ExitCode 0 \<and>
      (ERROR, UnexpectedError e) \<in> set (logged (globals (fst (main ev w ts)))))"
proof (intro conjI impI)
  assume "\<not> data_file_exists w"
  then show "snd (main ev w ts) = ExitCode 1" by (rule main_missing_file)
next
  assume a: "data_file_exists w \<and> open_raises w = None \<and> plt_show (plt ev) = None \<and>
    snd (loop ev ts (loop_entry w)) = Some KeyboardInterrupt"
  obtain s1 where l: "loop ev ts (loop_entry w) = (s1, Some KeyboardInterrupt)"
    using a by (cases "loop ev ts (loop_entry w)") simp
  have m: "main ev w ts =
      (s1\<lparr>globals := logger INFO ConsumerClosed (logger INFO Interrupted (globals s1))\<rparr>, ExitCode 0)"
    using main_loop_raised[OF _ _ l] a by simp
  show "snd (main ev w ts) = ExitCode 0" using m by simp
  show "(INFO, Interrupted) \<in> set (logged (globals (fst (main ev w ts))))"
    using m by (simp add: logger_def)
next
  assume a: "data_file_exists w \<and> open_raises w = None \<and> plt_show (plt ev) = None \<and>
    snd (loop ev ts (loop_entry w)) = Some e \<and> is_Exception e"
  obtain s1 where l: "loop ev ts (loop_entry w) = (s1, Some e)"
    using a by (cases "loop ev ts (loop_entry w)") simp
  have k: "e \<noteq> KeyboardInterrupt" using a by auto
  have m: "main ev w ts =
      (s1\<lparr>globals := logger INFO ConsumerClosed (logger ERROR (UnexpectedError e) (globals s1))\<rparr>, ExitCode 0)"
    using main_loop_raised[OF _ _ l] a k by simp
  show "snd (main ev w ts) = ExitCode 0" using m by simp
  show "(ERROR, UnexpectedError e) \<in> set (logged (globals (fst (main ev w ts))))"
    using m by (simp add: logger_def)
qed

theorem exit_codes_witness:
  \<open>\<not> data_file_exists \<lparr>data_file_exists = False, data_file_text = [], open_raises = None\<rparr> \<and>
   snd (main sample_env \<lparr>data_file_exists = False, data_file_text = [], open_raises = None\<rparr> []) = ExitCode 1 \<and>
   data_file_exists \<lparr>data_file_exists = True, data_file_text = [], open_raises = None\<rparr> \<and>
   open_raises \<lparr>data_file_exists = True, data_file_text = [], open_raises = None\<rparr> = None \<and>
   plt_show (plt sample_env) = None \<and>
   snd (loop sample_env [Produce (''{"author": "alice"}'' @ [CHR 0x0A]), Raise KeyboardInterrupt]
     (loop_entry \<lparr>data_file_exists = True, data_file_text = [], open_raises = None\<rparr>)) = Some KeyboardInterrupt \<and>
   snd (main sample_env \<lparr>data_file_exists = True, data_file_text = [], open_raises = None\<rparr>
     [Produce (''{"author": "alice"}'' @ [CHR 0x0A]), Raise KeyboardInterrupt]) = ExitCode 0 \<and>
   snd (loop sample_env [Produce (''{"author": "alice"}'' @ [CHR 0x0A]), Raise OSError]
     (loop_entry \<lparr>data_file_exists = True, data_file_text = [], open_raises = None\<rparr>)) = Some OSError \<and>
   is_Exception OSError \<and>
   snd (main sample_env \<lparr>data_file_exists = True, data_file_text = [], open_raises = None\<rparr>
     [Produce (''{"author": "alice"}'' @ [CHR 0x0A]), Raise OSError]) = ExitCode 0\<close>
proof -
  let ?w = "\<lparr>data_file_exists = True, data_file_text = [], open_raises = None\<rparr>"
  let ?a = \<open>Produce (''{"author": "alice"}'' @ [CHR 0x0A])\<close>
  have k: "snd (loop sample_env [?a, Raise KeyboardInterrupt] (loop_entry ?w)) = Some KeyboardInterrupt"
    by (simp add: readline_def append_text_def loop_entry_def startup_def seek_end_def
        iteration_def strip_empty_iff isspace_def run_defs)
  have o: "snd (loop sample_env [?a, Raise OSError] (loop_entry ?w)) = Some OSError"
    by (simp add: readline_def append_text_def loop_entry_def startup_def seek_end_def
        iteration_def strip_empty_iff isspace_def run_defs)
  have p: "plt_show (plt sample_env) = None"
    by (simp add: sample_env_def quiet_plt_def)
  show ?thesis
    using k o p
      exit_codes[of "\<lparr>data_file_exists = False, data_file_text = [], open_raises = None\<rparr>"
        sample_env "[]" OSError]
      exit_codes[of ?w sample_env "[?a, Raise KeyboardInterrupt]" OSError]
      exit_codes[of ?w sample_env "[?a, Raise OSError]" OSError]
    by simp
qed

text \<open>
  The claim as the specification states it fails when the file becomes unreadable during
  the run: with the file present at startup and \<^verbatim>\<open>readline\<close> raising \<^verbatim>\<open>OSError\<close> in the
  second pass, the process logs the error and ends with exit code 0.
\<close>

theorem unreadable_file_exits_with_zero:
  \<open>main sample_env \<lparr>data_file_exists = True, data_file_text = [], open_raises = None\<rparr>
     [Produce (''{"author": "alice"}'' @ [CHR 0x0A]), Raise OSError] =
     (\<lparr>globals =
         \<lparr>author_counts = [(JStr ''alice'', 1)], total_messages = 1,
          logged = import_log @ [(INFO, StartConsumer), (INFO, Totals 1 [(JStr ''alice'', 1)]),
                    (ERROR, UnexpectedError OSError), (INFO, ConsumerClosed)]\<rparr>,
       infile = \<lparr>content = ''{"author": "alice"}'' @ [CHR 0x0A], pos = 20\<rparr>, naps = 0\<rparr>,
      ExitCode 0)\<close>
  by (simp add: main_def main_handlers_def main_finally_def readline_def append_text_def
      loop_entry_def startup_def seek_end_def iteration_def strip_empty_iff isspace_def run_defs)

text \<open>
  Claim C6. Processing the lines of a sequence in any other order gives the same
  aggregate: the same total and the same count for every key. This holds for every
  sequence of lines, in particular when each line decodes to a JSON object. The
  environment raises only errors, so each call of \<^verbatim>\<open>process_message\<close> returns and both
  runs process all their lines.
\<close>

theorem fold_is_commutative:
  assumes "raises_only_errors ev" and "mset ms' = mset ms"
  shows "snd (process_all ev ms s) = None \<and> snd (process_all ev ms' s) = None \<and>
         total_messages (fst (process_all ev ms' s)) = total_messages (fst (process_all ev ms s)) \<and>
         dict_lookup (author_counts (fst (process_all ev ms' s))) =
           dict_lookup (author_counts (fst (process_all ev ms s)))"
  using tally_permuted[OF assms, of s] process_all_returns[OF assms(1)]
  by (simp add: tally_def)

theorem fold_is_commutative_witness:
  \<open>raises_only_errors sample_env \<and>
   mset [''{"author": "bob"}'' @ [CHR 0x0A], ''{"x":1}'' @ [CHR 0x0A], ''{"author": "alice"}'' @ [CHR 0x0A]]
     = mset [''{"author": "alice"}'' @ [CHR 0x0A], ''{"author": "bob"}'' @ [CHR 0x0A], ''{"x":1}'' @ [CHR 0x0A]] \<and>
   total_messages (fst (process_all sample_env
       [''{"author": "bob"}'' @ [CHR 0x0A], ''{"x":1}'' @ [CHR 0x0A], ''{"author": "alice"}'' @ [CHR 0x0A]]
       initial_state)) =
   total_messages (fst (process_all sample_env
       [''{"author": "alice"}'' @ [CHR 0x0A], ''{"author": "bob"}'' @ [CHR 0x0A], ''{"x":1}'' @ [CHR 0x0A]]
       initial_state)) \<and>
   dict_lookup (author_counts (fst (process_all sample_env
       [''{"author": "bob"}'' @ [CHR 0x0A], ''{"x":1}'' @ [CHR 0x0A], ''{"author": "alice"}'' @ [CHR 0x0A]]
       initial_state))) =
   dict_lookup (author_counts (fst (process_all sample_env
       [''{"author": "alice"}'' @ [CHR 0x0A], ''{"author": "bob"}'' @ [CHR 0x0A], ''{"x":1}'' @ [CHR 0x0A]]
       initial_state)))\<close>
proof -
  let ?a = \<open>''{"author": "alice"}'' @ [CHR 0x0A]\<close>
  let ?b = \<open>''{"author": "bob"}'' @ [CHR 0x0A]\<close>
  let ?x = \<open>''{"x":1}'' @ [CHR 0x0A]\<close>
  have m: "mset [?b, ?x, ?a] = mset [?a, ?b, ?x]"
    by simp
  show ?thesis
    using sample_env_raises_only_errors m
      fold_is_commutative[OF sample_env_raises_only_errors m, of initial_state]
    by simp
qed

text \<open>
  Claim C7. A line that decodes to a JSON object without an \<^verbatim>\<open>author\<close> key adds 1 to
  the total and 1 to the count of \<^verbatim>\<open>"Unknown"\<close>, and leaves every other key as it was.
\<close>

theorem missing_author_counts_as_Unknown:
  assumes "loads ev m = Inr (JObj kvs)" and "map_of kvs ''author'' = None"
  shows "total_messages (fst (process_message ev m s)) = total_messages s + 1 \<and>
         count_of (author_counts (fst (process_message ev m s))) (KStr ''Unknown'') =
           count_of (author_counts s) (KStr ''Unknown'') + 1 \<and>
         (\<forall>k. k \<noteq> KStr ''Unknown'' \<longrightarrow>
            dict_lookup (author_counts (fst (process_message ev m s))) k =
              dict_lookup (author_counts s) k)"
proof -
  have "counted_key ev m = Some (KStr ''Unknown'')"
    using assms by (simp add: counted_key_def dict_get_def)
  from process_message_count[OF this] show ?thesis
    by (simp add: count_of_def)
qed

theorem missing_author_counts_as_Unknown_witness:
  \<open>loads sample_env (''{"x":1}'' @ [CHR 0x0A]) = Inr (JObj [(''x'', JInt 1)]) \<and>
   map_of [(''x'', JInt 1)] ''author'' = None \<and>
   total_messages (fst (process_message sample_env (''{"x":1}'' @ [CHR 0x0A]) initial_state)) = 1 \<and>
   count_of (author_counts (fst (process_message sample_env (''{"x":1}'' @ [CHR 0x0A]) initial_state)))
     (KStr ''Unknown'') = 1\<close>
proof -
  have l: \<open>loads sample_env (''{"x":1}'' @ [CHR 0x0A]) = Inr (JObj [(''x'', JInt 1)])\<close>
    by (simp add: sample_env_def sample_loads_def)
  have a: "map_of [(''x'', JInt 1)] ''author'' = None"
    by simp
  show ?thesis
    using l a missing_author_counts_as_Unknown[OF l a, of initial_state]
    by (simp add: initial_state_def count_of_def)
qed

text \<open>
  Claim C8. A line that decodes to a value that is not an object (an array, a number, a
  string, null or a boolean) is logged at error level with the type that was found, and
  \<^verbatim>\<open>process_message\<close> returns with \<^verbatim>\<open>total_messages\<close> and \<^verbatim>\<open>author_counts\<close> unchanged.
\<close>

theorem non_object_is_logged_and_skipped:
  assumes "loads ev m = Inr v" and "type_of v \<noteq> PyDict"
  shows "process_message ev m s =
           (s\<lparr>logged := logged s @ [(ERROR, ExpectedDictGot (type_of v))]\<rparr>, None)"
  using assms by (cases v) (simp_all add: process_message_def logger_def)

theorem non_object_is_logged_and_skipped_witness:
  \<open>loads sample_env (''[1, 2]'' @ [CHR 0x0A]) = Inr (JArr [JInt 1, JInt 2]) \<and>
   type_of (JArr [JInt 1, JInt 2]) \<noteq> PyDict \<and>
   process_message sample_env (''[1, 2]'' @ [CHR 0x0A]) initial_state =
     (\<lparr>author_counts = [], total_messages = 0,
       logged = import_log @ [(ERROR, ExpectedDictGot PyList)]\<rparr>, None)\<close>
proof -
  have l: \<open>loads sample_env (''[1, 2]'' @ [CHR 0x0A]) = Inr (JArr [JInt 1, JInt 2])\<close>
    by (simp add: sample_env_def sample_loads_def)
  have t: "type_of (JArr [JInt 1, JInt 2]) \<noteq> PyDict"
    by simp
  show ?thesis
    using l t non_object_is_logged_and_skipped[OF l t, of initial_state]
    by (simp add: initial_state_def)
qed

text \<open>
  Claim C9. When the line that \<^verbatim>\<open>readline\<close> returned has only whitespace characters
  (the empty string read at the end of the file included), the pass does not call
  \<^verbatim>\<open>process_message\<close>: whatever the environment, the globals and the log are as before,
  nothing is raised, and the pass takes the \<^verbatim>\<open>time.sleep\<close> branch.
\<close>

theorem blank_line_sleeps:
  assumes "readline (infile s) = (line, f)" and "\<forall>c\<in>set line. isspace c"
  shows "iteration ev s = (s\<lparr>infile := f, naps := naps s + 1\<rparr>, None) \<and>
         globals (fst (iteration ev s)) = globals s \<and>
         naps (fst (iteration ev s)) = naps s + 1"
  using assms by (simp add: iteration_def strip_empty_iff)

theorem blank_line_sleeps_witness:
  "readline \<lparr>content = [CHR 0x20, CHR 0x09, CHR 0x0A], pos = 0\<rparr> =
     ([CHR 0x20, CHR 0x09, CHR 0x0A], \<lparr>content = [CHR 0x20, CHR 0x09, CHR 0x0A], pos = 3\<rparr>) \<and>
   list_all isspace [CHR 0x20, CHR 0x09, CHR 0x0A] \<and>
   iteration sample_env
     \<lparr>globals = initial_state, infile = \<lparr>content = [CHR 0x20, CHR 0x09, CHR 0x0A], pos = 0\<rparr>,
      naps = 0\<rparr> =
     (\<lparr>globals = initial_state, infile = \<lparr>content = [CHR 0x20, CHR 0x09, CHR 0x0A], pos = 3\<rparr>,
       naps = 1\<rparr>, None)"
proof -
  let ?t = "[CHR 0x20, CHR 0x09, CHR 0x0A]"
  let ?s = "\<lparr>globals = initial_state, infile = \<lparr>content = ?t, pos = 0\<rparr>, naps = 0\<rparr>"
  have r: "readline (infile ?s) = (?t, \<lparr>content = ?t, pos = 3\<rparr>)"
    by (simp add: readline_def Let_def)
  have b: "\<forall>c\<in>set ?t. isspace c"
    by (simp add: isspace_def)
  show ?thesis
    using r b blank_line_sleeps[OF r b, of sample_env]
    by (simp add: isspace_def)
qed

text \<open>
  Claim C10. No error leaves \<^verbatim>\<open>process_message\<close>: every error raised inside it is
  caught there and logged at error level, and the call returns. An error (an instance of
  \<^verbatim>\<open>Exception\<close>) raised by \<^verbatim>\<open>json.loads\<close> leaves the state as it was but for one
  error line in the log. An error raised by the fold, which is the \<^verbatim>\<open>TypeError\<close> of
  \<^verbatim>\<open>author_counts[author]\<close>, does the same. An error raised by \<^verbatim>\<open>update_chart\<close> leaves
  the record counted and the info line logged, followed by one error line. So when
  everything that \<^verbatim>\<open>json.loads\<close> and the plotting calls raise is an error, the call
  returns for every input string and every state; and with any environment, what leaves
  \<^verbatim>\<open>process_message\<close> is never an error: it is a \<^verbatim>\<open>KeyboardInterrupt\<close> or a
  \<^verbatim>\<open>SystemExit\<close>, which are not instances of \<^verbatim>\<open>Exception\<close>, raised by
  \<^verbatim>\<open>json.loads\<close> or by a plotting call of this very call.
\<close>

theorem process_message_contains_errors:
  "(loads ev m = Inl e \<and> is_Exception e \<longrightarrow>
      process_message ev m s =
        (s\<lparr>logged := logged s @
             [(ERROR, if e = JSONDecodeError then InvalidJSON m else ErrorProcessing e)]\<rparr>,
         None)) \<and>
   (loads ev m = Inr (JObj kvs) \<and>
    iadd_item (author_counts s) (dict_get kvs ''author'' (JStr ''Unknown'')) 1 = Inl e \<longrightarrow>
      is_Exception e \<and>
      process_message ev m s =
        (s\<lparr>logged := logged s @ [(ERROR, ErrorProcessing e)]\<rparr>, None)) \<and>
   (loads ev m = Inr (JObj kvs) \<and>
    iadd_item (author_counts s) (dict_get kvs ''author'' (JStr ''Unknown'')) 1 = Inr d \<and>
    update_chart (plt ev)
      (s\<lparr>author_counts := d, total_messages := total_messages s + 1,
         logged := logged s @ [(INFO, Totals (total_messages s + 1) d)]\<rparr>) = Some e \<and>
    is_Exception e \<longrightarrow>
      process_message ev m s =
        (s\<lparr>author_counts := d, total_messages := total_messages s + 1,
           logged := logged s @
             [(INFO, Totals (total_messages s + 1) d),
              (ERROR, if e = JSONDecodeError then InvalidJSON m else ErrorProcessing e)]\<rparr>,
         None)) \<and>
   (raises_only_errors ev \<longrightarrow> snd (process_message ev m s) = None) \<and>
   (snd (process_message ev m s) = Some e' \<longrightarrow>
      \<not> is_Exception e' \<and>
      (loads ev m = Inl e' \<or> (\<exists>s'. update_chart (plt ev) s' = Some e')))"
proof (intro conjI impI)
  assume "loads ev m = Inl e \<and> is_Exception e"
  then show "process_message ev m s =
        (s\<lparr>logged := logged s @
             [(ERROR, if e = JSONDecodeError then InvalidJSON m else ErrorProcessing e)]\<rparr>,
         None)"
    by (simp add: process_message_def handlers_def logger_def)
next
  assume a: "loads ev m = Inr (JObj kvs) \<and>
    iadd_item (author_counts s) (dict_get kvs ''author'' (JStr ''Unknown'')) 1 = Inl e"
  then have t: "e = TypeError"
    by (auto simp: iadd_item_def getitem_def setitem_def split: option.splits)
  then show "is_Exception e" by simp
  show "process_message ev m s = (s\<lparr>logged := logged s @ [(ERROR, ErrorProcessing e)]\<rparr>, None)"
    using a t by (simp add: process_message_def handlers_def logger_def)
next
  assume "loads ev m = Inr (JObj kvs) \<and>
    iadd_item (author_counts s) (dict_get kvs ''author'' (JStr ''Unknown'')) 1 = Inr d \<and>
    update_chart (plt ev)
      (s\<lparr>author_counts := d, total_messages := total_messages s + 1,
         logged := logged s @ [(INFO, Totals (total_messages s + 1) d)]\<rparr>) = Some e \<and>
    is_Exception e"
  then show "process_message ev m s =
        (s\<lparr>author_counts := d, total_messages := total_messages s + 1,
           logged := logged s @
             [(INFO, Totals (total_messages s + 1) d),
              (ERROR, if e = JSONDecodeError then InvalidJSON m else ErrorProcessing e)]\<rparr>,
         None)"
    by (simp add: process_message_def handlers_def logger_def Let_def)
next
  assume "raises_only_errors ev"
  then show "snd (process_message ev m s) = None"
    by (rule process_message_returns)
next
  assume l: "snd (process_message ev m s) = Some e'"
  then show "\<not> is_Exception e'"
    by (rule process_message_escape)
  have i: "e'' = TypeError" if "iadd_item d' a n = Inl e''" for d' a n e''
    using that by (auto simp: iadd_item_def getitem_def setitem_def split: option.splits)
  show "loads ev m = Inl e' \<or> (\<exists>s'. update_chart (plt ev) s' = Some e')"
    using l unfolding process_message_def Let_def
    by (auto split: sum.splits json.splits option.splits
        dest!: handlers_propagates i)
qed

theorem process_message_contains_errors_witness:
  \<open>loads (sample_env\<lparr>loads := (\<lambda>m. Inl (OtherException ''RecursionError''))\<rparr>) ''[[[['' =
     Inl (OtherException ''RecursionError'') \<and>
   is_Exception (OtherException ''RecursionError'') \<and>
   process_message (sample_env\<lparr>loads := (\<lambda>m. Inl (OtherException ''RecursionError''))\<rparr>)
       ''[[[['' initial_state =
     (\<lparr>author_counts = [], total_messages = 0,
       logged = import_log @ [(ERROR, ErrorProcessing (OtherException ''RecursionError''))]\<rparr>,
      None) \<and>
   loads sample_env (''{"author": [1]}'' @ [CHR 0x0A]) = Inr (JObj [(''author'', JArr [JInt 1])]) \<and>
   iadd_item (author_counts initial_state)
       (dict_get [(''author'', JArr [JInt 1])] ''author'' (JStr ''Unknown'')) 1 = Inl TypeError \<and>
   process_message sample_env (''{"author": [1]}'' @ [CHR 0x0A]) initial_state =
     (\<lparr>author_counts = [], total_messages = 0,
       logged = import_log @ [(ERROR, ErrorProcessing TypeError)]\<rparr>, None) \<and>
   loads (sample_env\<lparr>plt := quiet_plt\<lparr>plt_draw := Some (OtherException ''TclError'')\<rparr>\<rparr>)
       (''{"x":1}'' @ [CHR 0x0A]) = Inr (JObj [(''x'', JInt 1)]) \<and>
   iadd_item (author_counts initial_state)
       (dict_get [(''x'', JInt 1)] ''author'' (JStr ''Unknown'')) 1 = Inr [(JStr ''Unknown'', 1)] \<and>
   update_chart (plt (sample_env\<lparr>plt := quiet_plt\<lparr>plt_draw := Some (OtherException ''TclError'')\<rparr>\<rparr>))
       (initial_state\<lparr>author_counts := [(JStr ''Unknown'', 1)],
          total_messages := total_messages initial_state + 1,
          logged := logged initial_state @
            [(INFO, Totals (total_messages initial_state + 1) [(JStr ''Unknown'', 1)])]\<rparr>) =
     Some (OtherException ''TclError'') \<and>
   process_message (sample_env\<lparr>plt := quiet_plt\<lparr>plt_draw := Some (OtherException ''TclError'')\<rparr>\<rparr>)
       (''{"x":1}'' @ [CHR 0x0A]) initial_state =
     (\<lparr>author_counts = [(JStr ''Unknown'', 1)], total_messages = 1,
       logged = import_log @
         [(INFO, Totals 1 [(JStr ''Unknown'', 1)]),
          (ERROR, ErrorProcessing (OtherException ''TclError''))]\<rparr>, None) \<and>
   raises_only_errors sample_env \<and>
   snd (process_message sample_env (''not json'' @ [CHR 0x0A]) initial_state) = None \<and>
   snd (process_message (sample_env\<lparr>loads := (\<lambda>m. Inl KeyboardInterrupt)\<rparr>) ''x'' initial_state)
     = Some KeyboardInterrupt \<and>
   \<not> is_Exception KeyboardInterrupt\<close>
proof -
  let ?deep = "sample_env\<lparr>loads := (\<lambda>m. Inl (OtherException ''RecursionError''))\<rparr>"
  let ?tk = "sample_env\<lparr>plt := quiet_plt\<lparr>plt_draw := Some (OtherException ''TclError'')\<rparr>\<rparr>"
  let ?int = "sample_env\<lparr>loads := (\<lambda>m. Inl KeyboardInterrupt)\<rparr>"
  let ?lst = \<open>''{"author": [1]}'' @ [CHR 0x0A]\<close>
  let ?x = \<open>''{"x":1}'' @ [CHR 0x0A]\<close>
  let ?c = "initial_state\<lparr>author_counts := [(JStr ''Unknown'', 1)],
          total_messages := total_messages initial_state + 1,
          logged := logged initial_state @
            [(INFO, Totals (total_messages initial_state + 1) [(JStr ''Unknown'', 1)])]\<rparr>"
  have l1: "loads ?deep ''[[[['' = Inl (OtherException ''RecursionError'')"
    by simp
  have l2: "loads sample_env ?lst = Inr (JObj [(''author'', JArr [JInt 1])])"
    by (simp add: sample_env_def sample_loads_def)
  have i2: "iadd_item (author_counts initial_state)
       (dict_get [(''author'', JArr [JInt 1])] ''author'' (JStr ''Unknown'')) 1 = Inl TypeError"
    by (simp add: iadd_item_def getitem_def dict_get_def)
  have l3: "loads ?tk ?x = Inr (JObj [(''x'', JInt 1)])"
    by (simp add: sample_env_def sample_loads_def)
  have i3: "iadd_item (author_counts initial_state)
       (dict_get [(''x'', JInt 1)] ''author'' (JStr ''Unknown'')) 1 = Inr [(JStr ''Unknown'', 1)]"
    by (simp add: iadd_item_def getitem_def setitem_def dict_get_def initial_state_def)
  have u3: "update_chart (plt ?tk) ?c = Some (OtherException ''TclError'')"
    by (simp add: update_chart_def and_then_def Let_def quiet_plt_def initial_state_def)
  have k: "snd (process_message ?int ''x'' initial_state) = Some KeyboardInterrupt"
    by (simp add: process_message_def handlers_def)
  show ?thesis
    using l1 l2 i2 l3 i3 u3 k sample_env_raises_only_errors
      process_message_contains_errors[of ?deep "''[[[[''" "OtherException ''RecursionError''"
        initial_state "[]" "[]" KeyboardInterrupt]
      process_message_contains_errors[of sample_env ?lst TypeError initial_state
        "[(''author'', JArr [JInt 1])]" "[]" KeyboardInterrupt]
      process_message_contains_errors[of ?tk ?x "OtherException ''TclError''" initial_state
        "[(''x'', JInt 1)]" "[(JStr ''Unknown'', 1)]" KeyboardInterrupt]
      process_message_contains_errors[of sample_env "''not json'' @ [CHR 0x0A]" TypeError
        initial_state "[]" "[]" KeyboardInterrupt]
      process_message_contains_errors[of ?int "''x''" TypeError initial_state "[]" "[]"
        KeyboardInterrupt]
    by (simp add: initial_state_def)
qed

end
